theory Spec2Isabelle
  imports Main
begin

section \<open>Errors\<close>

text \<open>
  A Go \<^verbatim>\<open>error\<close> value is either an opaque error carrying a message
  (\<^verbatim>\<open>errors.New\<close>, a driver error, the result of \<^verbatim>\<open>fmt.Errorf\<close> with the verb
  \<^verbatim>\<open>%v\<close>) or an error that wraps another one behind a prefix (\<^verbatim>\<open>fmt.Errorf\<close> with
  a trailing \<^verbatim>\<open>%w\<close>).
\<close>

datatype error = New string | Wrap string error

fun Error :: "error \<Rightarrow> string" where
  "Error (New s) = s"
| "Error (Wrap p e) = p @ Error e"


text \<open>The bytes of a message that is not ASCII are listed by their codes.\<close>

definition utf8 :: "nat list \<Rightarrow> string" where
  "utf8 bs = map char_of bs"



definition msg_age_query :: string where
  "msg_age_query = utf8 [0xE6, 0xA0, 0xB9, 0xE6, 0x8D, 0xAE, 0xE5, 0xB9, 0xB4, 0xE9, 0xBE,
     0x84, 0xE6, 0x9F, 0xA5, 0xE8, 0xAF, 0xA2, 0xE7, 0x94, 0xA8, 0xE6, 0x88, 0xB7, 0xE5, 0xA4,
     0xB1, 0xE8, 0xB4, 0xA5, 0x3A, 0x20]"

definition msg_load_location :: string where
  "msg_load_location = utf8 [0xE5, 0x8A, 0xA0, 0xE8, 0xBD, 0xBD, 0xE6, 0x97, 0xB6, 0xE5, 0x8C,
     0xBA, 0xE5, 0xA4, 0xB1, 0xE8, 0xB4, 0xA5, 0x3A, 0x20]"

definition msg_connect :: string where
  "msg_connect = utf8 [0xE8, 0xBF, 0x9E, 0xE6, 0x8E, 0xA5, 0xE6, 0x95, 0xB0, 0xE6, 0x8D, 0xAE,
     0xE5, 0xBA, 0x93, 0xE5, 0xA4, 0xB1, 0xE8, 0xB4, 0xA5, 0x3A, 0x20]"

section \<open>The connection factory\<close>

subsection \<open>Configuration, logger levels, handles\<close>

record PostgresConfig =
  Host :: string
  Port :: int
  User :: string
  Password :: string
  DBName :: string
  SSLMode :: string
  MaxIdleConns :: int
  MaxOpenConns :: int
  MaxLifetime :: int
  LogLevel :: string

text \<open>The levels of \<^verbatim>\<open>gorm.io/gorm/logger\<close>, in the order of their constants.\<close>

datatype logger_LogLevel = Silent | Error_level | Warn | Info

text \<open>The \<^verbatim>\<open>switch cfg.LogLevel\<close> of \<^verbatim>\<open>NewPostgresDB\<close>, case by case.\<close>

definition logLevel_switch :: "string \<Rightarrow> logger_LogLevel" where
  "logLevel_switch s =
     (if s = ''silent'' then Silent
      else if s = ''error'' then Error_level
      else if s = ''warn'' then Warn
      else if s = ''info'' then Info
      else Info)"

text \<open>
  The specification's reading of the same mapping: a table over the four names, and
  \<^const>\<open>Info\<close> for a name the table does not hold.
\<close>

definition spec_level_table :: "(string \<times> logger_LogLevel) list" where
  "spec_level_table =
     [(''silent'', Silent), (''error'', Error_level), (''warn'', Warn), (''info'', Info)]"

definition spec_level :: "string \<Rightarrow> logger_LogLevel" where
  "spec_level s = (case map_of spec_level_table s of Some l \<Rightarrow> l | None \<Rightarrow> Info)"

text \<open>
  \<^verbatim>\<open>*sql.DB\<close>, the connection pool of \<^verbatim>\<open>database/sql\<close>, by the settings the program
  gives it and by whether it has been closed. \<^verbatim>\<open>ConnMaxLifetime\<close> is a
  \<^verbatim>\<open>time.Duration\<close>, a signed 64-bit count of nanoseconds.
\<close>

record sql_DB =
  maxIdleConns :: int
  maxOpenConns :: int
  connMaxLifetime :: int
  closed :: bool

text \<open>
  \<^verbatim>\<open>*gorm.DB\<close>: the data source name it was opened on, the level of its logger, and
  its connection pool, which is \<^const>\<open>None\<close> when the pool of the handle is not a
  \<^verbatim>\<open>*sql.DB\<close>.
\<close>

record gorm_DB =
  dsn :: string
  Logger :: logger_LogLevel
  ConnPool :: "sql_DB option"

definition ErrInvalidDB :: error where
  "ErrInvalidDB = New ''invalid db''"

text \<open>\<^verbatim>\<open>(*gorm.DB).DB()\<close>: the pool of the handle, or \<^verbatim>\<open>gorm.ErrInvalidDB\<close>.\<close>

definition gorm_DB_DB :: "gorm_DB \<Rightarrow> error + sql_DB" where
  "gorm_DB_DB db = (case ConnPool db of None \<Rightarrow> Inl ErrInvalidDB | Some p \<Rightarrow> Inr p)"

subsection \<open>The environment of the factory\<close>

text \<open>
  What the calls into the standard library, the driver and the network answer is not
  decided by the program: each answer is a field of the environment. \<^verbatim>\<open>location\<close> is
  the name of a loaded \<^verbatim>\<open>*time.Location\<close>.
\<close>

type_synonym location = string

record env =
  LoadLocation_result :: "error + location"
  Open_result :: "error + sql_DB option"
  Ping_result :: "error option"
  Close_result :: "error option"

text \<open>The package-level variables the program writes: \<^verbatim>\<open>DB\<close> and \<^verbatim>\<open>time.Local\<close>.\<close>

record globals =
  DB :: "gorm_DB option"
  time_Local :: location

subsection \<open>Formatting\<close>

text \<open>\<^verbatim>\<open>fmt.Sprintf("%d", n)\<close>: decimal digits, with a minus sign for a negative number.\<close>

fun digits :: "nat \<Rightarrow> string" where
  "digits n = (if n < 10 then [char_of (48 + n)] else digits (n div 10) @ [char_of (48 + n mod 10)])"

definition fmt_d :: "int \<Rightarrow> string" where
  "fmt_d i = (if i < 0 then CHR ''-'' # digits (nat (- i)) else digits (nat i))"

definition make_dsn :: "PostgresConfig \<Rightarrow> string" where
  "make_dsn cfg =
     ''host='' @ Host cfg @ '' user='' @ User cfg @ '' password='' @ Password cfg @
     '' dbname='' @ DBName cfg @ '' port='' @ fmt_d (Port cfg) @ '' sslmode='' @ SSLMode cfg @
     '' TimeZone=Asia/Shanghai''"

text \<open>
  \<^verbatim>\<open>time.Duration(n) * time.Second\<close>: a product of signed 64-bit integers, which wraps.
\<close>

definition seconds :: "int \<Rightarrow> int" where
  "seconds n = signed_take_bit 63 (n * 1000000000)"

subsection \<open>NewPostgresDB and Close\<close>

text \<open>
  \<^verbatim>\<open>gorm.Open(postgres.Open(dsn), &gorm.Config{Logger: logger.Default.LogMode(logLevel), ...})\<close>:
  the environment decides whether the connection opens; the handle keeps the data source
  name and the logger level it was given.
\<close>

definition gorm_Open :: "env \<Rightarrow> string \<Rightarrow> logger_LogLevel \<Rightarrow> error + gorm_DB" where
  "gorm_Open e d l =
     (case Open_result e of
        Inl err \<Rightarrow> Inl err
      | Inr pool \<Rightarrow> Inr \<lparr>dsn = d, Logger = l, ConnPool = pool\<rparr>)"

text \<open>
  The pool settings of \<^verbatim>\<open>NewPostgresDB\<close>: the two limits always, the lifetime only when
  \<^verbatim>\<open>cfg.MaxLifetime > 0\<close>.
\<close>

definition configure_pool :: "PostgresConfig \<Rightarrow> sql_DB \<Rightarrow> sql_DB" where
  "configure_pool cfg p =
     (let p1 = p\<lparr>maxIdleConns := MaxIdleConns cfg\<rparr>;
          p2 = p1\<lparr>maxOpenConns := MaxOpenConns cfg\<rparr>
      in if MaxLifetime cfg > 0 then p2\<lparr>connMaxLifetime := seconds (MaxLifetime cfg)\<rparr> else p2)"

text \<open>
  \<^verbatim>\<open>NewPostgresDB\<close> returns the handle or the error, and the package-level variables as
  it leaves them. The pool is reached through a pointer, so the handle that is returned
  and published is the one whose pool has been configured. The log line on success is
  not modelled.
\<close>

definition NewPostgresDB :: "env \<Rightarrow> PostgresConfig \<Rightarrow> globals \<Rightarrow> (error + gorm_DB) \<times> globals" where
  "NewPostgresDB e cfg g =
     (case LoadLocation_result e of
        Inl err \<Rightarrow> (Inl (Wrap msg_load_location err), g)
      | Inr loc \<Rightarrow>
          let g1 = g\<lparr>time_Local := loc\<rparr>;
              d = make_dsn cfg;
              logLevel = logLevel_switch (LogLevel cfg)
          in (case gorm_Open e d logLevel of
                Inl err \<Rightarrow> (Inl (New (msg_connect @ Error err)), g1)
              | Inr db \<Rightarrow>
                  (case gorm_DB_DB db of
                     Inl err \<Rightarrow> (Inl (Wrap ''failed to get database instance: '' err), g1)
                   | Inr sqlDB \<Rightarrow>
                       let sqlDB1 = configure_pool cfg sqlDB;
                           db1 = db\<lparr>ConnPool := Some sqlDB1\<rparr>
                       in (case Ping_result e of
                             Some err \<Rightarrow> (Inl (Wrap ''failed to ping database: '' err), g1)
                           | None \<Rightarrow> (Inr db1, g1\<lparr>DB := Some db1\<rparr>)))))"

text \<open>
  \<^verbatim>\<open>Close\<close>: nothing when \<^verbatim>\<open>DB\<close> is nil; otherwise the error of \<^verbatim>\<open>DB.DB()\<close>, or the
  pool is closed and the error of \<^verbatim>\<open>sqlDB.Close()\<close> is returned. \<^verbatim>\<open>DB\<close> itself is not
  reset.
\<close>

definition Close :: "env \<Rightarrow> globals \<Rightarrow> error option \<times> globals" where
  "Close e g =
     (case DB g of
        Some db \<Rightarrow>
          (case gorm_DB_DB db of
             Inl err \<Rightarrow> (Some err, g)
           | Inr sqlDB \<Rightarrow>
               (Close_result e, g\<lparr>DB := Some (db\<lparr>ConnPool := Some (sqlDB\<lparr>closed := True\<rparr>)\<rparr>)\<rparr>))
      | None \<Rightarrow> (None, g))"

definition GetDB :: "globals \<Rightarrow> gorm_DB option" where
  "GetDB g = DB g"

section \<open>The entity and the database\<close>

text \<open>
  A \<^verbatim>\<open>time.Time\<close> is a count of clock units, \<open>0\<close> being the zero value of the type.
  \<^verbatim>\<open>gorm.DeletedAt\<close> is a nullable time: \<^const>\<open>None\<close> when it is not valid.
  \<^verbatim>\<open>ID\<close> is a \<^verbatim>\<open>uint\<close> and \<^verbatim>\<open>Age\<close> an \<^verbatim>\<open>int\<close>; the program only stores and compares
  them.
\<close>

type_synonym time_Time = nat

record User =
  ID :: nat
  Name :: string
  Email :: string
  Age :: int
  CreatedAt :: time_Time
  UpdatedAt :: time_Time
  DeletedAt :: "time_Time option"

text \<open>
  What the repository talks to, through its handle: the rows of the table
  \<^verbatim>\<open>postgresql_test.users\<close> (soft-deleted ones included) in the order queries return
  them, the last value of the sequence behind the \<^verbatim>\<open>id\<close> column, the wall clock, and
  the answers of the driver to the statements still to come: \<^verbatim>\<open>Some err\<close> when the
  statement fails in the client or on the wire, \<^const>\<open>None\<close> when the server executes
  it; once the list is used up every statement is executed.
\<close>

record server =
  rows :: "User list"
  seq :: nat
  clock :: nat
  outcomes :: "error option list"

text \<open>\<^verbatim>\<open>time.Now()\<close>: the clock advances with every reading and never shows the zero time.\<close>

definition time_Now :: "server \<Rightarrow> time_Time \<times> server" where
  "time_Now w = (Suc (clock w), w\<lparr>clock := Suc (clock w)\<rparr>)"

text \<open>One statement sent to the server: the next answer of the driver is used up.\<close>

definition driver_call :: "server \<Rightarrow> error option \<times> server" where
  "driver_call w =
     (case outcomes w of
        [] \<Rightarrow> (None, w)
      | r # rs \<Rightarrow> (r, w\<lparr>outcomes := rs\<rparr>))"

subsection \<open>The hooks of User\<close>

text \<open>Both hooks return a nil error, so only the entity and the clock are returned.\<close>

definition BeforeCreate :: "User \<Rightarrow> server \<Rightarrow> User \<times> server" where
  "BeforeCreate u w =
     (let (t1, w1) = time_Now w;
          u1 = u\<lparr>CreatedAt := t1\<rparr>;
          (t2, w2) = time_Now w1;
          u2 = u1\<lparr>UpdatedAt := t2\<rparr>
      in (u2, w2))"

definition BeforeUpdate :: "User \<Rightarrow> server \<Rightarrow> User \<times> server" where
  "BeforeUpdate u w =
     (let (t, w1) = time_Now w;
          u1 = u\<lparr>UpdatedAt := t\<rparr>
      in (u1, w1))"

section \<open>The calls into the object-relational mapper\<close>

text \<open>
  Modelled from the spec: the calls into \<^verbatim>\<open>gorm.io/gorm\<close> and PostgreSQL, a library and
  a server whose code is not in the repository. The repository delegates every operation
  to them. The specification's data model fixes what the properties below depend on: an
  identifier that is assigned on creation and unique, a unique index on \<^verbatim>\<open>email\<close>,
  a nullable soft-delete marker whose rows stay in storage and are left out of default
  queries, a fetch by identifier that fails with a not-found condition, a delete that
  sets the marker, a save that writes the full record by identifier, and a batch insert
  that succeeds entirely or not at all. The rest follows the documented behaviour of the
  library for the \<^verbatim>\<open>User\<close> model: the \<^verbatim>\<open>id\<close> column is filled from a sequence when
  the entity's identifier is zero, every other field is written as the entity holds it,
  and queries and updates are restricted to rows whose \<^verbatim>\<open>deleted_at\<close> is null. Column
  sizes, character encodings and cancellation through the context are not part of the
  model: a statement failing for such a reason is an answer \<^verbatim>\<open>Some err\<close> of the
  driver.
\<close>

definition ErrRecordNotFound :: error where
  "ErrRecordNotFound = New ''record not found''"

definition ErrEmptySlice :: error where
  "ErrEmptySlice = New ''empty slice found''"

text \<open>The error of PostgreSQL for a violated primary key or unique index.\<close>

definition ErrUniqueViolation :: error where
  "ErrUniqueViolation = New ''ERROR: duplicate key value violates unique constraint (SQLSTATE 23505)''"

definition live :: "User \<Rightarrow> bool" where
  "live u = (DeletedAt u = None)"

subsection \<open>Insertion\<close>

text \<open>
  A row cannot be inserted when its identifier or its email is that of a stored row,
  soft-deleted or not.
\<close>

definition violates :: "User list \<Rightarrow> User \<Rightarrow> bool" where
  "violates rs u = (ID u \<in> set (map ID rs) \<or> Email u \<in> set (map Email rs))"

text \<open>
  \<^verbatim>\<open>INSERT ... RETURNING id\<close> for one row: a zero identifier is left to the sequence,
  which advances even if the row is then refused; any other identifier is inserted as it
  is. Every field is written as the entity holds it, \<^verbatim>\<open>deleted_at\<close> included.
\<close>

definition insert_row :: "server \<Rightarrow> User \<Rightarrow> error option \<times> User \<times> server" where
  "insert_row w u =
     (let w1 = (if ID u = 0 then w\<lparr>seq := Suc (seq w)\<rparr> else w);
          u1 = (if ID u = 0 then u\<lparr>ID := seq w1\<rparr> else u)
      in if violates (rows w1) u1 then (Some ErrUniqueViolation, u, w1)
         else (None, u1, w1\<lparr>rows := rows w1 @ [u1]\<rparr>))"

fun insert_rows :: "server \<Rightarrow> User list \<Rightarrow> error option \<times> User list \<times> server" where
  "insert_rows w [] = (None, [], w)"
| "insert_rows w (u # us) =
     (case insert_row w u of
        (Some err, u1, w1) \<Rightarrow> (Some err, u # us, w1)
      | (None, u1, w1) \<Rightarrow>
          (case insert_rows w1 us of
             (Some err, us1, w2) \<Rightarrow> (Some err, u # us, w2)
           | (None, us1, w2) \<Rightarrow> (None, u1 # us1, w2)))"

fun hooks_BeforeCreate :: "User list \<Rightarrow> server \<Rightarrow> User list \<times> server" where
  "hooks_BeforeCreate [] w = ([], w)"
| "hooks_BeforeCreate (u # us) w =
     (let (u1, w1) = BeforeCreate u w;
          (us1, w2) = hooks_BeforeCreate us w1
      in (u1 # us1, w2))"

text \<open>
  \<^verbatim>\<open>db.Create(entity)\<close> on one entity: the hook, then the insertion. The entity is
  passed by pointer, so the caller sees what the hook and the insertion wrote to it: it
  is returned with the error.
\<close>

definition gorm_Create :: "server \<Rightarrow> User \<Rightarrow> error option \<times> User \<times> server" where
  "gorm_Create w u =
     (let (u1, w1) = BeforeCreate u w;
          (r, w2) = driver_call w1
      in case r of
           Some err \<Rightarrow> (Some err, u1, w2)
         | None \<Rightarrow> insert_row w2 u1)"

text \<open>
  \<^verbatim>\<open>db.Create(entities)\<close> on a slice: an empty slice is refused without a statement;
  otherwise the hooks run on every element and one statement inserts all rows or none.
\<close>

definition gorm_Create_slice :: "server \<Rightarrow> User list \<Rightarrow> error option \<times> User list \<times> server" where
  "gorm_Create_slice w us =
     (if us = [] then (Some ErrEmptySlice, us, w)
      else
        let (us1, w1) = hooks_BeforeCreate us w;
            (r, w2) = driver_call w1
        in case r of
             Some err \<Rightarrow> (Some err, us1, w2)
           | None \<Rightarrow>
               (case insert_rows w2 us1 of
                  (Some err, us2, w3) \<Rightarrow> (Some err, us1, w3\<lparr>rows := rows w2\<rparr>)
                | (None, us2, w3) \<Rightarrow> (None, us2, w3)))"

subsection \<open>Queries\<close>

text \<open>
  The conditions the repository puts on a query, and the statement a chain of calls
  builds: \<^verbatim>\<open>Where\<close>, \<^verbatim>\<open>Offset\<close> and \<^verbatim>\<open>Limit\<close> add to it, \<^verbatim>\<open>Find\<close>, \<^verbatim>\<open>First\<close> and
  \<^verbatim>\<open>Count\<close> execute it.
\<close>

datatype cond = Age_gt int | Primary_key nat

fun holds :: "cond \<Rightarrow> User \<Rightarrow> bool" where
  "holds (Age_gt n) u = (Age u > n)"
| "holds (Primary_key i) u = (ID u = i)"

record stmt =
  conds :: "cond list"
  offset :: int
  limit :: "int option"

definition session :: stmt where
  "session = \<lparr>conds = [], offset = 0, limit = None\<rparr>"

definition gorm_Where :: "cond \<Rightarrow> stmt \<Rightarrow> stmt" where
  "gorm_Where c s = s\<lparr>conds := conds s @ [c]\<rparr>"

definition gorm_Offset :: "int \<Rightarrow> stmt \<Rightarrow> stmt" where
  "gorm_Offset n s = s\<lparr>offset := n\<rparr>"

definition gorm_Limit :: "int \<Rightarrow> stmt \<Rightarrow> stmt" where
  "gorm_Limit n s = s\<lparr>limit := Some n\<rparr>"

text \<open>
  The rows a statement selects: those that are not soft-deleted and meet every
  condition, in table order; \<^verbatim>\<open>OFFSET\<close> is written for a positive offset only and
  \<^verbatim>\<open>LIMIT\<close> for a limit that is not negative.
\<close>

definition selected :: "stmt \<Rightarrow> User list \<Rightarrow> User list" where
  "selected s rs =
     (let xs = filter (\<lambda>u. live u \<and> list_all (\<lambda>c. holds c u) (conds s)) rs;
          ys = (if offset s > 0 then drop (nat (offset s)) xs else xs)
      in case limit s of
           None \<Rightarrow> ys
         | Some n \<Rightarrow> if n \<ge> 0 then take (nat n) ys else ys)"

definition gorm_Find :: "stmt \<Rightarrow> server \<Rightarrow> (User list \<times> error option) \<times> server" where
  "gorm_Find s w =
     (let (r, w1) = driver_call w
      in case r of
           Some err \<Rightarrow> (([], Some err), w1)
         | None \<Rightarrow> ((selected s (rows w1), None), w1))"

text \<open>\<^verbatim>\<open>db.First(&entity, id)\<close>: the row with that primary key, or \<^verbatim>\<open>ErrRecordNotFound\<close>.\<close>

definition gorm_First :: "nat \<Rightarrow> server \<Rightarrow> (User option \<times> error option) \<times> server" where
  "gorm_First i w =
     (let (r, w1) = driver_call w
      in case r of
           Some err \<Rightarrow> ((None, Some err), w1)
         | None \<Rightarrow>
             (case selected (gorm_Where (Primary_key i) session) (rows w1) of
                [] \<Rightarrow> ((None, Some ErrRecordNotFound), w1)
              | u # _ \<Rightarrow> ((Some u, None), w1)))"

text \<open>\<^verbatim>\<open>db.Model(new(T)).Count(&count)\<close>: the number of rows that are not soft-deleted.\<close>

definition gorm_Count :: "server \<Rightarrow> (int \<times> error option) \<times> server" where
  "gorm_Count w =
     (let (r, w1) = driver_call w
      in case r of
           Some err \<Rightarrow> ((0, Some err), w1)
         | None \<Rightarrow> ((int (length (selected session (rows w1))), None), w1))"


subsection \<open>Soft deletion\<close>

text \<open>
  \<^verbatim>\<open>db.Delete(new(T), id)\<close> on a model with a \<^verbatim>\<open>gorm.DeletedAt\<close> field: an
  \<^verbatim>\<open>UPDATE\<close> that sets \<^verbatim>\<open>deleted_at\<close> to the current time on the rows with that
  primary key that are not yet soft-deleted. No row is removed, and a statement that
  matches no row is not an error.
\<close>

definition soft_delete :: "nat \<Rightarrow> time_Time \<Rightarrow> User \<Rightarrow> User" where
  "soft_delete i t u = (if ID u = i \<and> live u then u\<lparr>DeletedAt := Some t\<rparr> else u)"

definition gorm_Delete :: "nat \<Rightarrow> server \<Rightarrow> error option \<times> server" where
  "gorm_Delete i w =
     (let (t, w1) = time_Now w;
          (r, w2) = driver_call w1
      in case r of
           Some err \<Rightarrow> (Some err, w2)
         | None \<Rightarrow> (None, w2\<lparr>rows := map (soft_delete i t) (rows w2)\<rparr>))"

subsection \<open>Save\<close>

text \<open>
  A row cannot take the values of an entity when another row, one with a different
  identifier, holds the entity's email.
\<close>

definition email_taken :: "User list \<Rightarrow> User \<Rightarrow> bool" where
  "email_taken rs u = (Email u \<in> set (map Email (filter (\<lambda>r. ID r \<noteq> ID u) rs)))"

text \<open>
  The second statement of \<^verbatim>\<open>Save\<close>, sent when the \<^verbatim>\<open>UPDATE\<close> matched no row: an
  \<^verbatim>\<open>INSERT ... ON CONFLICT (id) DO UPDATE\<close>, without hooks. A stored row with the
  identifier takes every column of the entity but \<^verbatim>\<open>created_at\<close>, and the current
  time as \<^verbatim>\<open>updated_at\<close>; with no such row the entity is inserted, a zero
  \<^verbatim>\<open>CreatedAt\<close> being filled with the current time.
\<close>

definition on_conflict :: "User \<Rightarrow> time_Time \<Rightarrow> User \<Rightarrow> User" where
  "on_conflict u t r =
     (if ID r = ID u then u\<lparr>CreatedAt := CreatedAt r, UpdatedAt := t\<rparr> else r)"

definition upsert :: "server \<Rightarrow> User \<Rightarrow> error option \<times> User \<times> server" where
  "upsert w u =
     (let (t, w1) = time_Now w;
          u1 = (if CreatedAt u = 0 then u\<lparr>CreatedAt := t\<rparr> else u);
          (r, w2) = driver_call w1
      in case r of
           Some err \<Rightarrow> (Some err, u1, w2)
         | None \<Rightarrow>
             if email_taken (rows w2) u1 then (Some ErrUniqueViolation, u1, w2)
             else if ID u1 \<in> set (map ID (rows w2))
             then (None, u1, w2\<lparr>rows := map (on_conflict u1 t) (rows w2)\<rparr>)
             else (None, u1, w2\<lparr>rows := rows w2 @ [u1]\<rparr>))"

text \<open>
  \<^verbatim>\<open>db.Save(entity)\<close>. An entity with a zero primary key is created. Any other entity
  is written with an \<^verbatim>\<open>UPDATE\<close> of all its fields, zero values and \<^verbatim>\<open>created_at\<close>
  included, on the row with its primary key that is not soft-deleted: the hook
  \<^verbatim>\<open>BeforeUpdate\<close> runs, then \<^verbatim>\<open>updated_at\<close> is set to the current time in the entity
  and in the statement. When the statement succeeds and matches no row, the entity is
  upserted.
\<close>

definition update_all :: "User \<Rightarrow> User \<Rightarrow> User" where
  "update_all u r = (if ID r = ID u \<and> live r then u else r)"

definition gorm_Save :: "server \<Rightarrow> User \<Rightarrow> error option \<times> User \<times> server" where
  "gorm_Save w u =
     (if ID u = 0 then gorm_Create w u
      else
        let (u1, w1) = BeforeUpdate u w;
            (t, w2) = time_Now w1;
            u2 = u1\<lparr>UpdatedAt := t\<rparr>;
            (r, w3) = driver_call w2
        in case r of
             Some err \<Rightarrow> (Some err, u2, w3)
           | None \<Rightarrow>
               if filter (\<lambda>r. ID r = ID u2 \<and> live r) (rows w3) = [] then upsert w3 u2
               else if email_taken (rows w3) u2 then (Some ErrUniqueViolation, u2, w3)
               else (None, u2, w3\<lparr>rows := map (update_all u2) (rows w3)\<rparr>))"

section \<open>The generic repository, for User\<close>


definition Create :: "server \<Rightarrow> User \<Rightarrow> error option \<times> User \<times> server" where
  "Create w entity = gorm_Create w entity"

definition BatchCreate :: "server \<Rightarrow> User list \<Rightarrow> error option \<times> User list \<times> server" where
  "BatchCreate w entities = gorm_Create_slice w entities"

definition GetByID :: "server \<Rightarrow> nat \<Rightarrow> (User option \<times> error option) \<times> server" where
  "GetByID w i =
     (case gorm_First i w of
        ((entity, Some err), w1) \<Rightarrow> ((None, Some err), w1)
      | ((entity, None), w1) \<Rightarrow> ((entity, None), w1))"

definition Update :: "server \<Rightarrow> User \<Rightarrow> error option \<times> User \<times> server" where
  "Update w entity = gorm_Save w entity"

definition Delete :: "server \<Rightarrow> nat \<Rightarrow> error option \<times> server" where
  "Delete w i = gorm_Delete i w"

definition ListAll :: "server \<Rightarrow> (User list \<times> error option) \<times> server" where
  "ListAll w = gorm_Find session w"

definition Count :: "server \<Rightarrow> (int \<times> error option) \<times> server" where
  "Count w = gorm_Count w"

text \<open>
  \<^verbatim>\<open>List\<close> declares \<^verbatim>\<open>var total int64\<close>, then
  \<^verbatim>\<open>if total, err := r.Count(ctx); err != nil { return nil, total, err }\<close>. The short
  declaration in the \<^verbatim>\<open>if\<close> introduces a second \<^verbatim>\<open>total\<close>, in scope in that
  statement only; the \<^verbatim>\<open>total\<close> of the final \<^verbatim>\<open>return\<close> is the outer variable, which
  nothing has assigned.
\<close>

definition List :: "server \<Rightarrow> int \<Rightarrow> int \<Rightarrow> (User list \<times> int \<times> error option) \<times> server" where
  "List w off lim =
     (let total = (0 :: int)
      in case Count w of
           ((total_if, Some err), w1) \<Rightarrow> (([], total_if, Some err), w1)
         | ((total_if, None), w1) \<Rightarrow>
             (case gorm_Find (gorm_Limit lim (gorm_Offset off session)) w1 of
                ((entities, err), w2) \<Rightarrow> ((entities, total, err), w2)))"

section \<open>The user repository\<close>

definition GetUserByAge :: "server \<Rightarrow> int \<Rightarrow> (User list \<times> error option) \<times> server" where
  "GetUserByAge w minAge =
     (case gorm_Find (gorm_Where (Age_gt minAge) session) w of
        ((users, Some err), w1) \<Rightarrow> (([], Some (Wrap msg_age_query err)), w1)
      | ((users, None), w1) \<Rightarrow> ((users, None), w1))"

section \<open>The demonstration driver\<close>

text \<open>
  The values \<^verbatim>\<open>main\<close> passes: its configuration, and the four users it creates, whose
  names are UTF-8. Fields a composite literal leaves out hold the zero value of their
  type.
\<close>

definition main_cfg :: PostgresConfig where
  "main_cfg = \<lparr>Host = ''192.168.140.128'', Port = 5432, User = ''postgres'',
     Password = ''postgres'', DBName = ''gin_app'', SSLMode = ''disable'', MaxIdleConns = 10,
     MaxOpenConns = 100, MaxLifetime = 60, LogLevel = ''info''\<rparr>"

definition new_User :: "string \<Rightarrow> string \<Rightarrow> int \<Rightarrow> User" where
  "new_User n m a =
     \<lparr>ID = 0, Name = n, Email = m, Age = a, CreatedAt = 0, UpdatedAt = 0, DeletedAt = None\<rparr>"

definition main_user1 :: User where
  "main_user1 = new_User (utf8 [0xE5, 0xBC, 0xA0, 0xE4, 0xB8, 0x89]) ''zhangsan@example.com'' 25"

definition main_user2 :: User where
  "main_user2 = new_User (utf8 [0xE6, 0x9D, 0x8E, 0xE5, 0x9B, 0x9B]) ''lisi@example.com'' 30"

definition main_user3 :: User where
  "main_user3 = new_User (utf8 [0xE7, 0x8E, 0x8B, 0xE4, 0xBA, 0x94]) ''wangwu@example.com'' 28"

definition main_user4 :: User where
  "main_user4 = new_User (utf8 [0xE8, 0xB5, 0xB5, 0xE5, 0x85, 0xAD]) ''zhaoliu@example.com'' 35"

text \<open>An entity that already carries a soft-delete marker when it is created.\<close>

definition deleted_user :: User where
  "deleted_user = main_user1\<lparr>DeletedAt := Some 1\<rparr>"

text \<open>The first update of \<^verbatim>\<open>main\<close>: \<^verbatim>\<open>&User{ID: 1, Age: 26}\<close>.\<close>

definition main_update1 :: User where
  "main_update1 = (new_User [] [] 26)\<lparr>ID := 1\<rparr>"

text \<open>
  States to run the program on: a pool as \<^verbatim>\<open>database/sql\<close> opens it, an environment
  in which every step of the factory succeeds, the package-level variables at program
  start, and a server with an empty table that executes every statement.
\<close>

definition fresh_pool :: sql_DB where
  "fresh_pool = \<lparr>maxIdleConns = 2, maxOpenConns = 0, connMaxLifetime = 0, closed = False\<rparr>"

definition env_ok :: env where
  "env_ok = \<lparr>LoadLocation_result = Inr ''Asia/Shanghai'', Open_result = Inr (Some fresh_pool),
     Ping_result = None, Close_result = None\<rparr>"

definition globals0 :: globals where
  "globals0 = \<lparr>DB = None, time_Local = ''Local''\<rparr>"

definition empty_server :: server where
  "empty_server = \<lparr>rows = [], seq = 0, clock = 0, outcomes = []\<rparr>"

text \<open>
  The server after the creations of \<^verbatim>\<open>main\<close> on an empty table: two calls of
  \<^verbatim>\<open>Create\<close> and one of \<^verbatim>\<open>BatchCreate\<close>. \<^verbatim>\<open>flaky_server\<close> fails its first statement
  and executes the next.
\<close>

definition main_server :: server where
  "main_server =
     (case Create empty_server main_user1 of (r1, e1, w1) \<Rightarrow>
      case Create w1 main_user2 of (r2, e2, w2) \<Rightarrow>
      case BatchCreate w2 [main_user3, main_user4] of (r3, es, w3) \<Rightarrow> w3)"


text \<open>
  Sequences of calls, as a caller makes them: \<^verbatim>\<open>Create\<close> on each entity of a list and
  \<^verbatim>\<open>Delete\<close> on each identifier of a list, stopping at the first error. The entities
  are returned as \<^verbatim>\<open>Create\<close> left them.
\<close>

fun create_each :: "server \<Rightarrow> User list \<Rightarrow> error option \<times> User list \<times> server" where
  "create_each w [] = (None, [], w)"
| "create_each w (e # es) =
     (case Create w e of
        (Some err, e1, w1) \<Rightarrow> (Some err, [], w1)
      | (None, e1, w1) \<Rightarrow>
          (case create_each w1 es of (r, es1, w2) \<Rightarrow> (r, e1 # es1, w2)))"

fun delete_each :: "server \<Rightarrow> nat list \<Rightarrow> error option \<times> server" where
  "delete_each w [] = (None, w)"
| "delete_each w (i # is) =
     (case Delete w i of
        (Some err, w1) \<Rightarrow> (Some err, w1)
      | (None, w1) \<Rightarrow> delete_each w1 is)"

section \<open>Properties of the connection factory\<close>

lemma logLevel_switch_spec: "logLevel_switch s = spec_level s"
  by (simp add: logLevel_switch_def spec_level_def spec_level_table_def)

lemma NewPostgresDB_Logger:
  "NewPostgresDB e cfg g = (Inr h, g') \<Longrightarrow> Logger h = logLevel_switch (LogLevel cfg)"
  by (auto simp: NewPostgresDB_def gorm_Open_def gorm_DB_DB_def Let_def
      split: sum.splits option.splits)

text \<open>
  C8. The factory maps the configured verbosity string to the logger level of the same
  name for \<^verbatim>\<open>silent\<close>, \<^verbatim>\<open>error\<close>, \<^verbatim>\<open>warn\<close> and \<^verbatim>\<open>info\<close>, and to the info level for
  every other string: the switch of the source agrees with the table of the
  specification on all strings, and the handle a successful \<^verbatim>\<open>NewPostgresDB\<close> returns
  logs at that level.
\<close>

theorem logLevel_mapping:
  "logLevel_switch ''silent'' = Silent \<and> logLevel_switch ''error'' = Error_level \<and>
   logLevel_switch ''warn'' = Warn \<and> logLevel_switch ''info'' = Info \<and>
   (s \<notin> {''silent'', ''error'', ''warn'', ''info''} \<longrightarrow> logLevel_switch s = Info) \<and>
   logLevel_switch s = spec_level s \<and>
   (\<forall>h g'. NewPostgresDB e cfg g = (Inr h, g') \<longrightarrow> Logger h = spec_level (LogLevel cfg))"
proof -
  have "Logger h = spec_level (LogLevel cfg)" if "NewPostgresDB e cfg g = (Inr h, g')" for h g'
    using NewPostgresDB_Logger [OF that] by (simp add: logLevel_switch_spec)
  then show ?thesis
    using logLevel_switch_spec [of s] by (simp add: logLevel_switch_def)
qed

theorem logLevel_mapping_witness:
  "''debug'' \<notin> {''silent'', ''error'', ''warn'', ''info''} \<and> logLevel_switch ''debug'' = Info \<and>
   (\<exists>h g'. NewPostgresDB env_ok (main_cfg\<lparr>LogLevel := ''warn''\<rparr>) globals0 = (Inr h, g') \<and>
      Logger h = Warn)"
  using logLevel_mapping [where s = "''debug''" and e = env_ok
      and cfg = "main_cfg\<lparr>LogLevel := ''warn''\<rparr>" and g = globals0]
  by (simp add: NewPostgresDB_def gorm_Open_def gorm_DB_DB_def env_ok_def main_cfg_def
      logLevel_switch_def Let_def)

lemma NewPostgresDB_pool:
  "NewPostgresDB e cfg g = (Inr h, g') \<Longrightarrow> DB g' = Some h \<and> (\<exists>p. ConnPool h = Some p)"
  by (auto simp: NewPostgresDB_def gorm_Open_def gorm_DB_DB_def Let_def
      split: sum.splits option.splits)

lemma Close_pool:
  "DB g = Some h \<Longrightarrow> ConnPool h = Some p \<Longrightarrow>
   Close e g = (Close_result e, g\<lparr>DB := Some (h\<lparr>ConnPool := Some (p\<lparr>closed := True\<rparr>)\<rparr>)\<rparr>)"
  by (simp add: Close_def gorm_DB_DB_def)

text \<open>
  C9. \<^verbatim>\<open>Close\<close> returns no error and changes nothing while the global handle is nil.
  On the handle a successful \<^verbatim>\<open>NewPostgresDB\<close> has published, and on any handle that
  has a pool, it closes the pool and returns exactly the error of closing it.
\<close>

theorem Close_cases:
  "(DB g = None \<longrightarrow> Close e g = (None, g)) \<and>
   (\<forall>h p. DB g = Some h \<and> ConnPool h = Some p \<longrightarrow>
      Close e g = (Close_result e, g\<lparr>DB := Some (h\<lparr>ConnPool := Some (p\<lparr>closed := True\<rparr>)\<rparr>)\<rparr>)) \<and>
   (\<forall>e0 cfg g0 h. NewPostgresDB e0 cfg g0 = (Inr h, g) \<longrightarrow>
      (\<exists>p. DB g = Some h \<and> ConnPool h = Some p \<and>
           Close e g = (Close_result e, g\<lparr>DB := Some (h\<lparr>ConnPool := Some (p\<lparr>closed := True\<rparr>)\<rparr>)\<rparr>)))"
proof -
  have nil: "DB g = None \<longrightarrow> Close e g = (None, g)"
    by (simp add: Close_def)
  have opened: "\<exists>p. DB g = Some h \<and> ConnPool h = Some p \<and>
      Close e g = (Close_result e, g\<lparr>DB := Some (h\<lparr>ConnPool := Some (p\<lparr>closed := True\<rparr>)\<rparr>)\<rparr>)"
    if "NewPostgresDB e0 cfg g0 = (Inr h, g)" for e0 cfg g0 h
  proof -
    from NewPostgresDB_pool [OF that] obtain p where "DB g = Some h" "ConnPool h = Some p"
      by blast
    then show ?thesis using Close_pool by blast
  qed
  show ?thesis using nil opened Close_pool by blast
qed

theorem Close_cases_witness:
  "DB globals0 = None \<and> Close env_ok globals0 = (None, globals0) \<and>
   (\<exists>h g. NewPostgresDB env_ok main_cfg globals0 = (Inr h, g) \<and>
      fst (Close (env_ok\<lparr>Close_result := Some (New ''EOF'')\<rparr>) g) = Some (New ''EOF'') \<and>
      map_option closed
        (ConnPool (the (DB (snd (Close (env_ok\<lparr>Close_result := Some (New ''EOF'')\<rparr>) g))))) =
      Some True)"
  using Close_cases [where g = globals0 and e = env_ok]
    Close_cases [where g = "snd (NewPostgresDB env_ok main_cfg globals0)"
      and e = "env_ok\<lparr>Close_result := Some (New ''EOF'')\<rparr>"]
  by (simp add: NewPostgresDB_def gorm_Open_def gorm_DB_DB_def env_ok_def main_cfg_def
      logLevel_switch_def Let_def globals0_def Close_def)

text \<open>
  C10. \<^verbatim>\<open>NewPostgresDB\<close> leaves the global handle as it was on every path that returns
  an error. When it returns a handle, the time zone was loaded, the connection opened on
  a pool, the ping succeeded, and the global handle is the returned one, its pool
  configured. It returns a handle whenever those three steps succeed.
\<close>

theorem NewPostgresDB_publishes_last:
  "(case NewPostgresDB e cfg g of
      (Inl err, g') \<Rightarrow> DB g' = DB g
    | (Inr h, g') \<Rightarrow>
        DB g' = Some h \<and>
        (\<exists>loc p. LoadLocation_result e = Inr loc \<and> Open_result e = Inr (Some p) \<and>
           Ping_result e = None \<and> ConnPool h = Some (configure_pool cfg p))) \<and>
   ((\<exists>loc p. LoadLocation_result e = Inr loc \<and> Open_result e = Inr (Some p) \<and>
        Ping_result e = None) \<longrightarrow>
    (\<exists>h. fst (NewPostgresDB e cfg g) = Inr h))"
  by (auto simp: NewPostgresDB_def gorm_Open_def gorm_DB_DB_def Let_def
      split: sum.splits option.splits)

theorem NewPostgresDB_publishes_last_witness:
  "DB (snd (NewPostgresDB (env_ok\<lparr>Ping_result := Some (New ''timeout'')\<rparr>) main_cfg globals0)) =
     DB globals0 \<and>
   (\<exists>err. fst (NewPostgresDB (env_ok\<lparr>Ping_result := Some (New ''timeout'')\<rparr>) main_cfg globals0) =
      Inl err) \<and>
   (\<exists>h. fst (NewPostgresDB env_ok main_cfg globals0) = Inr h \<and>
      DB (snd (NewPostgresDB env_ok main_cfg globals0)) = Some h)"
  using NewPostgresDB_publishes_last [where e = "env_ok\<lparr>Ping_result := Some (New ''timeout'')\<rparr>"
      and cfg = main_cfg and g = globals0]
    NewPostgresDB_publishes_last [where e = env_ok and cfg = main_cfg and g = globals0]
  by (simp add: NewPostgresDB_def gorm_Open_def gorm_DB_DB_def env_ok_def main_cfg_def
      logLevel_switch_def Let_def globals0_def)

section \<open>Properties of the repository\<close>

subsection \<open>Statements and queries\<close>


lemma selected_session: "selected session rs = filter live rs"
  by (simp add: selected_def session_def)

lemma selected_Age_gt:
  "selected (gorm_Where (Age_gt n) session) rs = filter (\<lambda>u. live u \<and> Age u > n) rs"
  by (simp add: selected_def session_def gorm_Where_def)

lemma selected_Primary_key:
  "selected (gorm_Where (Primary_key i) session) rs = filter (\<lambda>u. live u \<and> ID u = i) rs"
  by (simp add: selected_def session_def gorm_Where_def)

lemma main_server_eq:
  "main_server =
     \<lparr>rows = [main_user1\<lparr>ID := 1, CreatedAt := 1, UpdatedAt := 2\<rparr>,
              main_user2\<lparr>ID := 2, CreatedAt := 3, UpdatedAt := 4\<rparr>,
              main_user3\<lparr>ID := 3, CreatedAt := 5, UpdatedAt := 6\<rparr>,
              main_user4\<lparr>ID := 4, CreatedAt := 7, UpdatedAt := 8\<rparr>],
      seq = 4, clock = 8, outcomes = []\<rparr>"
  by (simp add: main_server_def empty_server_def Create_def BatchCreate_def gorm_Create_def
      gorm_Create_slice_def BeforeCreate_def time_Now_def driver_call_def insert_row_def
      violates_def main_user1_def main_user2_def main_user3_def main_user4_def new_User_def Let_def)

lemma ListAll_ok: "ListAll w = ((us, None), w') \<Longrightarrow> us = filter live (rows w)"
  by (auto simp: ListAll_def gorm_Find_def selected_session driver_call_def
      split: prod.splits option.splits list.splits)

lemma Count_ok: "Count w = ((n, None), w') \<Longrightarrow> n = int (length (filter live (rows w)))"
  by (auto simp: Count_def gorm_Count_def selected_session driver_call_def
      split: prod.splits option.splits list.splits)

subsection \<open>The total of List\<close>

lemma List_total_zero:
  "snd (snd (fst (List w off lim))) = None \<Longrightarrow> fst (snd (fst (List w off lim))) = 0"
  by (auto simp: List_def Let_def split: prod.splits option.splits)

text \<open>
  C1. On the table \<^verbatim>\<open>main\<close> has filled, \<^verbatim>\<open>Count\<close> returns 4 and \<^verbatim>\<open>List(0, 10)\<close>
  returns the four records with a total of 0: the total \<^verbatim>\<open>List\<close> returns on its
  success path is not the result of its \<^verbatim>\<open>Count\<close> call.
\<close>

theorem List_total_is_not_Count:
  "fst (Count main_server) = (4, None) \<and>
   fst (List main_server 0 10) = (rows main_server, 0, None)"
  by (simp add: main_server_eq Count_def List_def gorm_Count_def gorm_Find_def driver_call_def
      selected_def session_def gorm_Limit_def gorm_Offset_def live_def main_user1_def
      main_user2_def main_user3_def main_user4_def new_User_def Let_def)

subsection \<open>The query by age\<close>

lemma GetUserByAge_ok:
  "fst (driver_call w) = None \<Longrightarrow>
   GetUserByAge w minAge =
     ((filter (\<lambda>u. live u \<and> Age u > minAge) (rows w), None), snd (driver_call w))"
  by (auto simp: GetUserByAge_def gorm_Find_def selected_Age_gt driver_call_def
      split: prod.splits option.splits list.splits)

lemma GetUserByAge_result:
  "GetUserByAge w minAge = ((us, None), w') \<Longrightarrow>
   us = filter (\<lambda>u. live u \<and> Age u > minAge) (rows w)"
  by (auto simp: GetUserByAge_def gorm_Find_def selected_Age_gt driver_call_def
      split: prod.splits option.splits list.splits)

lemma main_scenario:
  assumes "rows w = []" "outcomes w = []"
  shows "\<exists>e1 w1 e2 w2 es w3 us w4.
      Create w main_user1 = (None, e1, w1) \<and> Create w1 main_user2 = (None, e2, w2) \<and>
      BatchCreate w2 [main_user3, main_user4] = (None, es, w3) \<and>
      GetUserByAge w3 26 = ((us, None), w4) \<and> us = e2 # es \<and> map Age us = [30, 28, 35]"
proof -
  obtain s c where w: "w = \<lparr>rows = [], seq = s, clock = c, outcomes = []\<rparr>"
    using assms by (cases w) simp
  show ?thesis
    unfolding w
    by (simp add: Create_def BatchCreate_def gorm_Create_def gorm_Create_slice_def BeforeCreate_def
        time_Now_def driver_call_def insert_row_def violates_def GetUserByAge_def gorm_Find_def
        selected_Age_gt live_def main_user1_def main_user2_def main_user3_def main_user4_def
        new_User_def Let_def)
qed

text \<open>
  C2. When its statement is executed, \<^verbatim>\<open>GetUserByAge(minAge)\<close> returns the rows that
  are not soft-deleted and whose age is greater than \<^verbatim>\<open>minAge\<close>, and no other: a user
  whose age equals \<^verbatim>\<open>minAge\<close> is not returned. After the creations of \<^verbatim>\<open>main\<close> on an
  empty table (ages 25, 30, 28 and 35), \<^verbatim>\<open>GetUserByAge(26)\<close> returns the three users
  aged 30, 28 and 35.
\<close>

theorem GetUserByAge_strictly_older:
  "(fst (driver_call w) = None \<longrightarrow>
      (\<exists>w'. GetUserByAge w minAge =
         ((filter (\<lambda>u. live u \<and> Age u > minAge) (rows w), None), w'))) \<and>
   (\<forall>us w'. GetUserByAge w minAge = ((us, None), w') \<longrightarrow>
      set us = {u \<in> set (rows w). DeletedAt u = None \<and> Age u > minAge} \<and>
      (\<forall>u \<in> set (rows w). Age u = minAge \<longrightarrow> u \<notin> set us)) \<and>
   (rows w = [] \<and> outcomes w = [] \<longrightarrow>
      (\<exists>e1 w1 e2 w2 es w3 us w4.
         Create w main_user1 = (None, e1, w1) \<and> Create w1 main_user2 = (None, e2, w2) \<and>
         BatchCreate w2 [main_user3, main_user4] = (None, es, w3) \<and>
         GetUserByAge w3 26 = ((us, None), w4) \<and> us = e2 # es \<and>
         map Age us = [30, 28, 35]))"
proof -
  have a: "fst (driver_call w) = None \<longrightarrow>
      (\<exists>w'. GetUserByAge w minAge =
         ((filter (\<lambda>u. live u \<and> Age u > minAge) (rows w), None), w'))"
    using GetUserByAge_ok by blast
  have b: "set us = {u \<in> set (rows w). DeletedAt u = None \<and> Age u > minAge} \<and>
      (\<forall>u \<in> set (rows w). Age u = minAge \<longrightarrow> u \<notin> set us)"
    if "GetUserByAge w minAge = ((us, None), w')" for us w'
    using GetUserByAge_result [OF that] by (auto simp: live_def)
  have c: "rows w = [] \<and> outcomes w = [] \<longrightarrow>
      (\<exists>e1 w1 e2 w2 es w3 us w4.
         Create w main_user1 = (None, e1, w1) \<and> Create w1 main_user2 = (None, e2, w2) \<and>
         BatchCreate w2 [main_user3, main_user4] = (None, es, w3) \<and>
         GetUserByAge w3 26 = ((us, None), w4) \<and> us = e2 # es \<and>
         map Age us = [30, 28, 35])"
    using main_scenario [of w] by (intro impI) (elim conjE)
  from b have b': "\<forall>us w'. GetUserByAge w minAge = ((us, None), w') \<longrightarrow>
      set us = {u \<in> set (rows w). DeletedAt u = None \<and> Age u > minAge} \<and>
      (\<forall>u \<in> set (rows w). Age u = minAge \<longrightarrow> u \<notin> set us)"
    by blast
  show ?thesis by (intro conjI) (rule a, rule b', rule c)
qed

theorem GetUserByAge_strictly_older_witness:
  "fst (driver_call main_server) = None \<and>
   (\<exists>w'. GetUserByAge main_server 28 =
      ((filter (\<lambda>u. live u \<and> Age u > 28) (rows main_server), None), w')) \<and>
   map Age (rows main_server) = [25, 30, 28, 35] \<and>
   map Age (filter (\<lambda>u. live u \<and> Age u > 28) (rows main_server)) = [30, 35] \<and>
   rows empty_server = [] \<and> outcomes empty_server = [] \<and>
   (\<exists>e1 w1 e2 w2 es w3 us w4.
      Create empty_server main_user1 = (None, e1, w1) \<and> Create w1 main_user2 = (None, e2, w2) \<and>
      BatchCreate w2 [main_user3, main_user4] = (None, es, w3) \<and>
      GetUserByAge w3 26 = ((us, None), w4) \<and> us = e2 # es \<and> map Age us = [30, 28, 35])"
proof -
  have d: "fst (driver_call main_server) = None"
    by (simp add: main_server_eq driver_call_def)
  have e: "rows empty_server = [] \<and> outcomes empty_server = []"
    by (simp add: empty_server_def)
  note a = GetUserByAge_strictly_older [where w = main_server and minAge = 28,
      THEN conjunct1, rule_format, OF d]
  note c = GetUserByAge_strictly_older [where w = empty_server and minAge = 26,
      THEN conjunct2, THEN conjunct2, rule_format, OF e]
  have m: "map Age (rows main_server) = [25, 30, 28, 35]"
    by (simp add: main_server_eq main_user1_def main_user2_def main_user3_def main_user4_def
        new_User_def)
  have f: "map Age (filter (\<lambda>u. live u \<and> Age u > 28) (rows main_server)) = [30, 35]"
    by (simp add: main_server_eq live_def main_user1_def main_user2_def main_user3_def
        main_user4_def new_User_def)
  show ?thesis
    by (intro conjI) (rule d, rule a, rule m, rule f, rule e [THEN conjunct1],
        rule e [THEN conjunct2], rule c)
qed

subsection \<open>Soft deletion\<close>

lemma soft_delete_fields [simp]:
  "ID (soft_delete i t u) = ID u" "Name (soft_delete i t u) = Name u"
  "Email (soft_delete i t u) = Email u" "Age (soft_delete i t u) = Age u"
  "CreatedAt (soft_delete i t u) = CreatedAt u" "UpdatedAt (soft_delete i t u) = UpdatedAt u"
  by (simp_all add: soft_delete_def)

lemma soft_delete_marked: "ID u = i \<Longrightarrow> DeletedAt (soft_delete i t u) \<noteq> None"
  by (simp add: soft_delete_def live_def)

lemma soft_delete_other: "ID u \<noteq> i \<Longrightarrow> soft_delete i t u = u"
  by (simp add: soft_delete_def)

lemma live_soft_delete: "live (soft_delete i t u) = (live u \<and> ID u \<noteq> i)"
  by (auto simp: soft_delete_def live_def)

lemma soft_delete_set_marked:
  assumes "u \<in> set (map (soft_delete i t) rs)" and "ID u = i"
  shows "DeletedAt u \<noteq> None"
proof -
  from assms(1) obtain x where x: "u = soft_delete i t x" by auto
  from assms(2) have "ID x = i" unfolding x by simp
  from soft_delete_marked [OF this] show ?thesis unfolding x .
qed

lemma soft_delete_set_other:
  assumes "u \<in> set (map (soft_delete i t) rs)" and "ID u \<noteq> i"
  shows "u \<in> set rs"
proof -
  from assms(1) obtain x where x: "u = soft_delete i t x" "x \<in> set rs" by auto
  from assms(2) have "ID x \<noteq> i" unfolding x by simp
  then have "u = x" unfolding x by (rule soft_delete_other)
  then show ?thesis using x(2) by simp
qed

lemma filter_live_soft_delete:
  "filter live (map (soft_delete i t) rs) = filter (\<lambda>u. live u \<and> ID u \<noteq> i) rs"
proof (induction rs)
  case Nil
  show ?case by simp
next
  case (Cons r rs)
  show ?case
  proof (cases "ID r = i")
    case True
    then show ?thesis using Cons by (simp add: live_soft_delete)
  next
    case False
    then show ?thesis using Cons by (simp add: soft_delete_other)
  qed
qed

lemma Delete_ok:
  "Delete w i = (None, w') \<Longrightarrow> rows w' = map (soft_delete i (Suc (clock w))) (rows w)"
  by (auto simp: Delete_def gorm_Delete_def time_Now_def driver_call_def
      split: prod.splits option.splits list.splits)

lemma Delete_succeeds:
  "fst (driver_call w) = None \<Longrightarrow> fst (Delete w i) = None"
  by (auto simp: Delete_def gorm_Delete_def time_Now_def driver_call_def
      split: prod.splits option.splits list.splits)

text \<open>
  C4. \<^verbatim>\<open>Delete(id)\<close> succeeds whenever its statement is executed. It removes no row and
  changes no other column: afterwards every row with that identifier carries the
  soft-delete marker and the rows with another identifier are as they were. \<^verbatim>\<open>ListAll\<close>
  then returns the rows that were not soft-deleted and have another identifier, so none
  with that identifier, and \<^verbatim>\<open>Count\<close> returns their number.
\<close>

theorem Delete_is_soft:
  "(fst (driver_call w) = None \<longrightarrow> fst (Delete w i) = None) \<and>
   (\<forall>w'. Delete w i = (None, w') \<longrightarrow>
      length (rows w') = length (rows w) \<and>
      map (\<lambda>u. (ID u, Name u, Email u, Age u, CreatedAt u, UpdatedAt u)) (rows w') =
        map (\<lambda>u. (ID u, Name u, Email u, Age u, CreatedAt u, UpdatedAt u)) (rows w) \<and>
      (\<forall>u \<in> set (rows w'). ID u = i \<longrightarrow> DeletedAt u \<noteq> None) \<and>
      (\<forall>u \<in> set (rows w'). ID u \<noteq> i \<longrightarrow> u \<in> set (rows w)) \<and>
      (\<forall>us w''. ListAll w' = ((us, None), w'') \<longrightarrow>
         us = filter (\<lambda>u. DeletedAt u = None \<and> ID u \<noteq> i) (rows w) \<and> i \<notin> ID ` set us) \<and>
      (\<forall>n w''. Count w' = ((n, None), w'') \<longrightarrow>
         n = int (length (filter (\<lambda>u. DeletedAt u = None \<and> ID u \<noteq> i) (rows w)))))"
proof (intro conjI allI impI)
  assume "fst (driver_call w) = None"
  then show "fst (Delete w i) = None" by (rule Delete_succeeds)
next
  fix w' assume d: "Delete w i = (None, w')"
  note r = Delete_ok [OF d]
  show "length (rows w') = length (rows w)" by (simp add: r)
  show "map (\<lambda>u. (ID u, Name u, Email u, Age u, CreatedAt u, UpdatedAt u)) (rows w') =
        map (\<lambda>u. (ID u, Name u, Email u, Age u, CreatedAt u, UpdatedAt u)) (rows w)"
    by (simp add: r)
  show "\<forall>u \<in> set (rows w'). ID u = i \<longrightarrow> DeletedAt u \<noteq> None"
    unfolding r using soft_delete_set_marked by blast
  show "\<forall>u \<in> set (rows w'). ID u \<noteq> i \<longrightarrow> u \<in> set (rows w)"
    unfolding r using soft_delete_set_other by blast
  have f: "filter live (rows w') = filter (\<lambda>u. DeletedAt u = None \<and> ID u \<noteq> i) (rows w)"
    unfolding r filter_live_soft_delete by (simp add: live_def)
  {
    fix us w'' assume "ListAll w' = ((us, None), w'')"
    then have us: "us = filter (\<lambda>u. DeletedAt u = None \<and> ID u \<noteq> i) (rows w)"
      using ListAll_ok f by metis
    then show "us = filter (\<lambda>u. DeletedAt u = None \<and> ID u \<noteq> i) (rows w)" .
    show "i \<notin> ID ` set us" unfolding us by auto
  }
  {
    fix n w'' assume "Count w' = ((n, None), w'')"
    then show "n = int (length (filter (\<lambda>u. DeletedAt u = None \<and> ID u \<noteq> i) (rows w)))"
      using Count_ok f by metis
  }
qed

theorem Delete_is_soft_witness:
  "fst (driver_call main_server) = None \<and>
   (\<exists>w'. Delete main_server 1 = (None, w') \<and> length (rows w') = 4 \<and>
      map ID (rows w') = [1, 2, 3, 4] \<and> map DeletedAt (rows w') = [Some 9, None, None, None] \<and>
      map ID (fst (fst (ListAll w'))) = [2, 3, 4] \<and> Count w' = ((3, None), w'))"
  using Delete_is_soft [where w = main_server and i = 1]
  by (simp add: main_server_eq Delete_def gorm_Delete_def time_Now_def driver_call_def
      ListAll_def Count_def gorm_Find_def gorm_Count_def selected_session live_def soft_delete_def
      main_user1_def main_user2_def main_user3_def main_user4_def new_User_def)


subsection \<open>Creating and fetching\<close>

lemma insert_row_ok:
  assumes "insert_row w u = (None, u', w')"
  shows "rows w' = rows w @ [u']" and "ID u' \<notin> ID ` set (rows w)"
    and "Email u' \<notin> Email ` set (rows w)"
    and "u' = u\<lparr>ID := ID u'\<rparr>" and "ID u' \<noteq> 0"
    and "ID u \<noteq> 0 \<longrightarrow> ID u' = ID u" and "outcomes w' = outcomes w" and "clock w' = clock w"
  using assms
  by (auto simp: insert_row_def Let_def violates_def split: if_splits)

lemma Create_ok:
  assumes "Create w e = (None, e', w')"
  shows "rows w' = rows w @ [e']" and "ID e' \<notin> ID ` set (rows w)"
    and "e' = e\<lparr>CreatedAt := Suc (clock w), UpdatedAt := Suc (Suc (clock w)), ID := ID e'\<rparr>"
    and "ID e' \<noteq> 0" and "ID e \<noteq> 0 \<longrightarrow> ID e' = ID e"
    and "outcomes w' = tl (outcomes w)"
proof -
  let ?u = "e\<lparr>CreatedAt := Suc (clock w), UpdatedAt := Suc (Suc (clock w))\<rparr>"
  let ?w1 = "w\<lparr>clock := Suc (Suc (clock w))\<rparr>"
  have hook: "BeforeCreate e w = (?u, ?w1)"
    by (simp add: BeforeCreate_def time_Now_def)
  obtain r w2 where dc: "driver_call ?w1 = (r, w2)" by (cases "driver_call ?w1")
  have w2: "rows w2 = rows w" "outcomes w2 = tl (outcomes w)"
    using dc by (auto simp: driver_call_def split: list.splits)
  from assms have ins: "r = None \<and> insert_row w2 ?u = (None, e', w')"
    by (cases r) (simp_all add: Create_def gorm_Create_def hook dc)
  note i = insert_row_ok [of w2 ?u e' w']
  from ins i(1) w2 show "rows w' = rows w @ [e']" by simp
  from ins i(2) w2 show "ID e' \<notin> ID ` set (rows w)" by simp
  from ins i(4) show "e' = e\<lparr>CreatedAt := Suc (clock w), UpdatedAt := Suc (Suc (clock w)), ID := ID e'\<rparr>"
    by blast
  from ins i(5) show "ID e' \<noteq> 0" by simp
  from ins i(6) show "ID e \<noteq> 0 \<longrightarrow> ID e' = ID e" by simp
  from ins i(7) w2 show "outcomes w' = tl (outcomes w)" by simp
qed


lemma GetByID_not_found:
  assumes "fst (driver_call w) = None" and "filter (\<lambda>u. live u \<and> ID u = i) (rows w) = []"
  shows "GetByID w i = ((None, Some ErrRecordNotFound), snd (driver_call w))"
proof -
  obtain w1 where dc: "driver_call w = (None, w1)"
    using assms(1) by (cases "driver_call w") simp
  then have "rows w1 = rows w" by (auto simp: driver_call_def split: list.splits)
  then show ?thesis
    using assms(2) by (simp add: GetByID_def gorm_First_def dc selected_Primary_key)
qed




subsection \<open>Updating\<close>

lemma email_taken_UpdatedAt: "email_taken rs (u\<lparr>UpdatedAt := t\<rparr>) = email_taken rs u"
  by (simp add: email_taken_def)

lemma Save_update:
  assumes "ID e \<noteq> 0" and "filter (\<lambda>r. ID r = ID e \<and> live r) (rows w) \<noteq> []"
    and "Update w e = (None, e', w')"
  shows "e' = e\<lparr>UpdatedAt := Suc (Suc (clock w))\<rparr>" and "rows w' = map (update_all e') (rows w)"
    and "\<not> email_taken (rows w) e"
proof -
  let ?u = "e\<lparr>UpdatedAt := Suc (Suc (clock w))\<rparr>"
  let ?w2 = "w\<lparr>clock := Suc (Suc (clock w))\<rparr>"
  obtain r w3 where dc: "driver_call ?w2 = (r, w3)" by (cases "driver_call ?w2")
  have w3: "rows w3 = rows w"
    using dc by (auto simp: driver_call_def split: list.splits)
  have sv: "Update w e =
      (case r of
         Some err \<Rightarrow> (Some err, ?u, w3)
       | None \<Rightarrow>
           if filter (\<lambda>r. ID r = ID ?u \<and> live r) (rows w3) = [] then upsert w3 ?u
           else if email_taken (rows w3) ?u then (Some ErrUniqueViolation, ?u, w3)
           else (None, ?u, w3\<lparr>rows := map (update_all ?u) (rows w3)\<rparr>))"
    using assms(1)
    by (cases r) (simp_all add: Update_def gorm_Save_def BeforeUpdate_def time_Now_def dc Let_def
        split del: if_split cong del: if_weak_cong)
  have ne: "filter (\<lambda>r. ID r = ID ?u \<and> live r) (rows w3) \<noteq> []"
    using assms(2) by (simp add: w3)
  have et: "email_taken (rows w3) ?u = email_taken (rows w) e"
    by (simp add: email_taken_def w3)
  from assms(3) sv ne have r: "r = None" by (cases r) simp_all
  from assms(3) sv ne r et have nt: "\<not> email_taken (rows w) e"
    by (auto simp: ErrUniqueViolation_def split: if_splits)
  from assms(3) sv ne r et nt have res: "e' = ?u \<and> w' = w3\<lparr>rows := map (update_all ?u) (rows w3)\<rparr>"
    by auto
  show "e' = ?u" using res by simp
  show "rows w' = map (update_all e') (rows w)" using res w3 by simp
  show "\<not> email_taken (rows w) e" by (rule nt)
qed

lemma Save_update_succeeds:
  assumes "ID e \<noteq> 0" and "filter (\<lambda>r. ID r = ID e \<and> live r) (rows w) \<noteq> []"
    and "fst (driver_call w) = None" and "\<not> email_taken (rows w) e"
  shows "fst (Update w e) = None"
proof -
  let ?u = "e\<lparr>UpdatedAt := Suc (Suc (clock w))\<rparr>"
  let ?w2 = "w\<lparr>clock := Suc (Suc (clock w))\<rparr>"
  obtain w3 where dc: "driver_call ?w2 = (None, w3)"
    using assms(3) by (cases "driver_call ?w2") (auto simp: driver_call_def split: list.splits)
  have w3: "rows w3 = rows w"
    using dc by (auto simp: driver_call_def split: list.splits)
  have et: "email_taken (rows w3) ?u = email_taken (rows w) e"
    by (simp add: email_taken_def w3)
  show ?thesis
    using assms(1,2,4)
    by (simp add: Update_def gorm_Save_def BeforeUpdate_def time_Now_def dc w3
        email_taken_UpdatedAt Let_def)
qed


lemma update_all_hit: "ID r = ID u \<Longrightarrow> live r \<Longrightarrow> update_all u r = u"
  by (simp add: update_all_def)

text \<open>
  What \<^verbatim>\<open>Update\<close>, which is \<^verbatim>\<open>db.Save\<close>, does on a record that is stored and not
  soft-deleted: it succeeds when its statement is executed and no other row holds the
  entity's email, and it then replaces the record by the entity, every field included,
  with the update timestamp set to the current time; the other rows stay as they were.
\<close>

lemma Update_writes_every_field:
  assumes "ID e \<noteq> 0" and "r \<in> set (rows w)" and "ID r = ID e" and "DeletedAt r = None"
  shows "(fst (driver_call w) = None \<and> \<not> email_taken (rows w) e \<longrightarrow> fst (Update w e) = None) \<and>
    (\<forall>e' w'. Update w e = (None, e', w') \<longrightarrow>
       e' = e\<lparr>UpdatedAt := Suc (Suc (clock w))\<rparr> \<and> clock w < UpdatedAt e' \<and>
       CreatedAt e' = CreatedAt e \<and> e' \<in> set (rows w') \<and>
       length (rows w') = length (rows w) \<and>
       (\<forall>k < length (rows w).
          rows w' ! k =
            (if ID (rows w ! k) = ID e \<and> DeletedAt (rows w ! k) = None then e'
             else rows w ! k)))"
proof (intro conjI allI impI)
  have "r \<in> set (filter (\<lambda>r. ID r = ID e \<and> live r) (rows w))"
    using assms(2,3,4) by (simp add: live_def)
  then have ne: "filter (\<lambda>r. ID r = ID e \<and> live r) (rows w) \<noteq> []"
    by (metis empty_iff list.set(1))
  {
    assume "fst (driver_call w) = None \<and> \<not> email_taken (rows w) e"
    then show "fst (Update w e) = None"
      using Save_update_succeeds [OF assms(1) ne] by blast
  }
  fix e' w' assume u: "Update w e = (None, e', w')"
  note s = Save_update [OF assms(1) ne u]
  show e': "e' = e\<lparr>UpdatedAt := Suc (Suc (clock w))\<rparr>" by (rule s(1))
  show "clock w < UpdatedAt e'" by (subst e') simp
  show "CreatedAt e' = CreatedAt e" by (subst e') simp
  have id: "ID e' = ID e" by (subst e') simp
  have "update_all e' r = e'"
    using assms(3,4) id by (simp add: update_all_hit live_def)
  then have "e' \<in> update_all e' ` set (rows w)"
    using assms(2) by (metis imageI)
  then show "e' \<in> set (rows w')" by (simp add: s(2))
  show "length (rows w') = length (rows w)" by (simp add: s(2))
  fix k assume "k < length (rows w)"
  then show "rows w' ! k =
      (if ID (rows w ! k) = ID e \<and> DeletedAt (rows w ! k) = None then e' else rows w ! k)"
    by (simp add: s(2) update_all_def id live_def)
qed

text \<open>
  C3. An update is to change only the fields the caller targets and to refresh the
  update timestamp, leaving the creation timestamp untouched. The code does not: on the
  first update of \<^verbatim>\<open>main\<close>, \<^verbatim>\<open>Update(&User{ID: 1, Age: 26})\<close>, made to change the age
  of user 1 on the table \<^verbatim>\<open>main\<close> has filled, \<^verbatim>\<open>Update\<close> succeeds and the creation
  timestamp of record 1 goes from 1 to the zero time and its email to the empty string,
  while the records 2, 3 and 4 keep theirs.
\<close>

theorem Update_overwrites_CreatedAt:
  "fst (Update main_server main_update1) = None \<and>
   map ID (rows main_server) = [1, 2, 3, 4] \<and>
   map CreatedAt (rows main_server) = [1, 3, 5, 7] \<and>
   map ID (rows (snd (snd (Update main_server main_update1)))) = [1, 2, 3, 4] \<and>
   map CreatedAt (rows (snd (snd (Update main_server main_update1)))) = [0, 3, 5, 7] \<and>
   map Email (rows (snd (snd (Update main_server main_update1)))) =
     [[], ''lisi@example.com'', ''wangwu@example.com'', ''zhaoliu@example.com'']"
  by (simp add: main_server_eq Update_def gorm_Save_def BeforeUpdate_def time_Now_def
      driver_call_def email_taken_def update_all_def live_def main_update1_def main_user1_def
      main_user2_def main_user3_def main_user4_def new_User_def Let_def)


subsection \<open>Counting after creations and deletions\<close>

lemma filter_soft_delete:
  "filter (\<lambda>u. live u \<and> P (ID u)) (map (soft_delete i t) rs) =
   filter (\<lambda>u. live u \<and> ID u \<noteq> i \<and> P (ID u)) rs"
  by (induction rs) (auto simp: live_soft_delete soft_delete_other)

lemma create_each_ok:
  "create_each w es = (None, cs, w1) \<Longrightarrow>
   rows w1 = rows w @ cs \<and> length cs = length es \<and> distinct (map ID cs) \<and>
   (\<forall>c \<in> set cs. ID c \<notin> ID ` set (rows w)) \<and>
   ((\<forall>e \<in> set es. DeletedAt e = None) \<longrightarrow> (\<forall>c \<in> set cs. live c))"
proof (induction es arbitrary: w cs w1)
  case Nil
  then show ?case by simp
next
  case (Cons e es)
  obtain r e1 wa where c: "Create w e = (r, e1, wa)" by (cases "Create w e")
  obtain r' cs' wb where ce: "create_each wa es = (r', cs', wb)" by (cases "create_each wa es")
  from Cons.prems c have r: "r = None" by (cases r) simp_all
  from Cons.prems c ce r have eq: "r' = None" "cs = e1 # cs'" "w1 = wb" by simp_all
  note k = Create_ok [OF c [unfolded r]]
  note ih = Cons.IH [OF ce [unfolded eq(1)]]
  have d: "DeletedAt e1 = DeletedAt e" by (subst k(3)) simp
  have rows: "rows w1 = rows w @ cs" using ih k(1) eq by simp
  have len: "length cs = length es + 1" using ih eq by simp
  have notin: "\<forall>c \<in> set cs'. ID c \<noteq> ID e1 \<and> ID c \<notin> ID ` set (rows w)"
    using ih k(1) by auto
  have dist: "distinct (map ID cs)" using ih notin eq(2) by auto
  have fresh: "\<forall>c \<in> set cs. ID c \<notin> ID ` set (rows w)" using notin k(2) eq(2) by simp
  have lv: "(\<forall>x \<in> set (e # es). DeletedAt x = None) \<longrightarrow> (\<forall>c \<in> set cs. live c)"
    using ih d eq(2) by (simp add: live_def)
  show ?case using rows len dist fresh lv by simp
qed

lemma delete_each_ok:
  "delete_each w is = (None, w') \<Longrightarrow>
   filter live (rows w') = filter (\<lambda>u. live u \<and> ID u \<notin> set is) (rows w)"
proof (induction "is" arbitrary: w)
  case Nil
  then show ?case by simp
next
  case (Cons i "is")
  obtain r wa where d: "Delete w i = (r, wa)" by (cases "Delete w i")
  from Cons.prems d have r: "r = None" by (cases r) simp_all
  from Cons.prems d r have de: "delete_each wa is = (None, w')" by simp
  note rw = Delete_ok [OF d [unfolded r]]
  have "filter live (rows w') = filter (\<lambda>u. live u \<and> ID u \<notin> set is) (rows wa)"
    by (rule Cons.IH [OF de])
  also have "\<dots> = filter (\<lambda>u. live u \<and> ID u \<noteq> i \<and> ID u \<notin> set is) (rows w)"
    unfolding rw by (rule filter_soft_delete)
  also have "\<dots> = filter (\<lambda>u. live u \<and> ID u \<notin> set (i # is)) (rows w)"
    by (rule filter_cong) auto
  finally show ?case .
qed

lemma length_filter_ids:
  assumes "distinct (map ID cs)" and "distinct is" and "set is \<subseteq> ID ` set cs"
  shows "length (filter (\<lambda>u. ID u \<notin> set is) cs) + length is = length cs"
proof -
  have m: "map ID (filter (\<lambda>u. ID u \<in> set is) cs) = filter (\<lambda>i. i \<in> set is) (map ID cs)"
    by (simp add: filter_map comp_def)
  have "distinct (filter (\<lambda>i. i \<in> set is) (map ID cs))"
    using assms(1) by simp
  moreover have "set (filter (\<lambda>i. i \<in> set is) (map ID cs)) = set is"
    using assms(3) by auto
  ultimately have "length (filter (\<lambda>i. i \<in> set is) (map ID cs)) = length is"
    using assms(2) by (metis distinct_card)
  then have "length (filter (\<lambda>u. ID u \<in> set is) cs) = length is"
    using m by (metis length_map)
  then show ?thesis
    using sum_length_filter_compl [of "\<lambda>u. ID u \<in> set is" cs] by simp
qed

text \<open>
  C5, as amended. After N successful calls of \<^verbatim>\<open>Create\<close> on entities none of which
  carries a soft-delete marker, followed by successful calls of \<^verbatim>\<open>Delete\<close> on M
  distinct identifiers among those assigned, M is at most N and \<^verbatim>\<open>Count\<close> returns the
  number of records that were live before, plus N minus M: on a table that was empty,
  N minus M.
\<close>

theorem Count_after_creates_and_deletes:
  assumes "create_each w es = (None, cs, w1)" and "\<forall>e \<in> set es. DeletedAt e = None"
    and "distinct is" and "set is \<subseteq> ID ` set cs"
    and "delete_each w1 is = (None, w2)" and "Count w2 = ((n, None), w3)"
  shows "length is \<le> length es \<and>
    n = int (length (filter live (rows w))) + int (length es) - int (length is) \<and>
    (rows w = [] \<longrightarrow> n = int (length es) - int (length is))"
proof -
  note c = create_each_ok [OF assms(1)]
  from c assms(2) have lv: "\<forall>c \<in> set cs. live c" by blast
  have n: "n = int (length (filter live (rows w2)))" by (rule Count_ok [OF assms(6)])
  have "filter live (rows w2) = filter (\<lambda>u. live u \<and> ID u \<notin> set is) (rows w @ cs)"
    using delete_each_ok [OF assms(5)] c by simp
  also have "\<dots> = filter (\<lambda>u. live u \<and> ID u \<notin> set is) (rows w) @
      filter (\<lambda>u. live u \<and> ID u \<notin> set is) cs"
    by simp
  also have "filter (\<lambda>u. live u \<and> ID u \<notin> set is) cs = filter (\<lambda>u. ID u \<notin> set is) cs"
    using lv by (intro filter_cong) auto
  also have "filter (\<lambda>u. live u \<and> ID u \<notin> set is) (rows w) = filter live (rows w)"
  proof (rule filter_cong [OF refl])
    fix x assume x: "x \<in> set (rows w)"
    have "ID x \<notin> set is"
    proof
      assume "ID x \<in> set is"
      with assms(4) obtain c where "c \<in> set cs" "ID c = ID x" by auto
      with c x show False by (metis imageI)
    qed
    then show "(live x \<and> ID x \<notin> set is) = live x" by simp
  qed
  finally have f: "filter live (rows w2) = filter live (rows w) @ filter (\<lambda>u. ID u \<notin> set is) cs" .
  have l: "length (filter (\<lambda>u. ID u \<notin> set is) cs) + length is = length es"
    using length_filter_ids [OF _ assms(3,4)] c by simp
  then have le: "length is \<le> length es" by simp
  have "n = int (length (filter live (rows w))) + int (length es) - int (length is)"
    using n f l by simp
  then show ?thesis using le by simp
qed

theorem Count_after_creates_and_deletes_witness:
  "create_each empty_server [main_user1, main_user2, main_user3, main_user4] =
     (None, rows main_server, main_server) \<and>
   map DeletedAt [main_user1, main_user2, main_user3, main_user4] = [None, None, None, None] \<and>
   distinct [1, 3 :: nat] \<and> set [1, 3] \<subseteq> ID ` set (rows main_server) \<and>
   fst (delete_each main_server [1, 3]) = None \<and>
   fst (Count (snd (delete_each main_server [1, 3]))) = (2, None) \<and>
   length [1, 3 :: nat] \<le> length [main_user1, main_user2, main_user3, main_user4]"
proof -
  let ?w2 = "snd (delete_each main_server [1, 3])"
  have a: "create_each empty_server [main_user1, main_user2, main_user3, main_user4] =
      (None, rows main_server, main_server)"
    by (simp add: main_server_eq empty_server_def Create_def gorm_Create_def BeforeCreate_def
        time_Now_def driver_call_def insert_row_def violates_def main_user1_def main_user2_def
        main_user3_def main_user4_def new_User_def Let_def)
  have b: "\<forall>e \<in> set [main_user1, main_user2, main_user3, main_user4]. DeletedAt e = None"
    by (simp add: main_user1_def main_user2_def main_user3_def main_user4_def new_User_def)
  have c: "distinct [1, 3 :: nat]" by simp
  have d: "set [1, 3] \<subseteq> ID ` set (rows main_server)"
    by (simp add: main_server_eq)
  have e: "delete_each main_server [1, 3] = (None, ?w2)"
    by (simp add: main_server_eq Delete_def gorm_Delete_def time_Now_def driver_call_def)
  have f: "Count ?w2 = ((2, None), ?w2)"
    by (simp add: main_server_eq Delete_def gorm_Delete_def time_Now_def driver_call_def
        Count_def gorm_Count_def selected_session soft_delete_def live_def main_user1_def
        main_user2_def main_user3_def main_user4_def new_User_def)
  have g: "fst (delete_each main_server [1, 3]) = None"
    using e by (metis fst_conv)
  have h: "fst (Count ?w2) = (2, None)"
    using f by (metis fst_conv)
  note t = Count_after_creates_and_deletes [OF a b c d e f, THEN conjunct1]
  have b': "map DeletedAt [main_user1, main_user2, main_user3, main_user4] =
      [None, None, None, None]"
    using b by simp
  show ?thesis
    by (intro conjI) (rule a, rule b', rule c, rule d, rule g, rule h, rule t)
qed

text \<open>
  C5, as stated, fails for N = 1 and M = 0 when the one record is created with its
  soft-delete marker set: \<^verbatim>\<open>Create\<close> succeeds on the empty table, nothing is deleted,
  and \<^verbatim>\<open>Count\<close> returns 0, not 1.
\<close>

theorem Count_misses_record_created_deleted:
  "fst (create_each empty_server [deleted_user]) = None \<and>
   length (fst (snd (create_each empty_server [deleted_user]))) = 1 \<and>
   fst (delete_each (snd (snd (create_each empty_server [deleted_user]))) []) = None \<and>
   fst (Count (snd (delete_each (snd (snd (create_each empty_server [deleted_user]))) []))) =
     (0, None)"
  by (simp add: deleted_user_def empty_server_def Create_def gorm_Create_def BeforeCreate_def
      time_Now_def driver_call_def insert_row_def violates_def main_user1_def new_User_def Let_def
      Count_def gorm_Count_def selected_session live_def)

subsection \<open>Errors surfaced to the caller\<close>



lemma driver_call_rows: "rows (snd (driver_call w)) = rows w"
  by (simp add: driver_call_def split: list.splits)









































end
